theory Spec2Isabelle
  imports Complex_Main "HOL-Library.Word"
begin

unbundle bit_operations_syntax

section \<open>Inverted index parser properties (be/src/olap/inverted_index_parser.cpp)\<close>

text \<open>
  The string constants used by the property readers are declared in
  \<^verbatim>\<open>olap/inverted_index_parser.h\<close>. They are taken as a parameter: nothing below
  depends on their values.
\<close>

record parser_constants =
  INVERTED_INDEX_PARSER_KEY :: string
  INVERTED_INDEX_PARSER_MODE_KEY :: string
  INVERTED_INDEX_PARSER_NONE :: string
  INVERTED_INDEX_PARSER_IK :: string
  INVERTED_INDEX_PARSER_SMART :: string
  INVERTED_INDEX_PARSER_COARSE_GRANULARITY :: string

text \<open>
  \<^verbatim>\<open>std::map<std::string, std::string>\<close> is a finite map from strings to strings;
  \<^verbatim>\<open>find(k) != end()\<close> is \<open>properties k \<noteq> None\<close>, and \<^verbatim>\<open>at(k)\<close> after a successful
  \<^verbatim>\<open>find\<close> is the stored value.
\<close>

definition get_parser_string_from_properties ::
  "parser_constants \<Rightarrow> (string \<rightharpoonup> string) \<Rightarrow> string" where
  "get_parser_string_from_properties K properties =
     (case properties (INVERTED_INDEX_PARSER_KEY K) of
        Some v \<Rightarrow> v
      | None \<Rightarrow> INVERTED_INDEX_PARSER_NONE K)"

definition get_parser_mode_string_from_properties ::
  "parser_constants \<Rightarrow> (string \<rightharpoonup> string) \<Rightarrow> string" where
  "get_parser_mode_string_from_properties K properties =
     (case properties (INVERTED_INDEX_PARSER_MODE_KEY K) of
        Some v \<Rightarrow> v
      | None \<Rightarrow>
          (case properties (INVERTED_INDEX_PARSER_KEY K) of
             Some second \<Rightarrow>
               if second = INVERTED_INDEX_PARSER_IK K
               then INVERTED_INDEX_PARSER_SMART K
               else INVERTED_INDEX_PARSER_COARSE_GRANULARITY K
           | None \<Rightarrow> INVERTED_INDEX_PARSER_COARSE_GRANULARITY K))"

text \<open>A concrete choice of the constants, used to run the functions on examples.\<close>

definition example_constants :: parser_constants where
  "example_constants =
     \<lparr> INVERTED_INDEX_PARSER_KEY = ''parser'',
       INVERTED_INDEX_PARSER_MODE_KEY = ''parser_mode'',
       INVERTED_INDEX_PARSER_NONE = ''none'',
       INVERTED_INDEX_PARSER_IK = ''ik'',
       INVERTED_INDEX_PARSER_SMART = ''ik_smart'',
       INVERTED_INDEX_PARSER_COARSE_GRANULARITY = ''coarse_grained'' \<rparr>"


section \<open>Base-2 string conversion (BinImpl, be/src/vec/functions/math.cpp)\<close>

text \<open>
  \<^verbatim>\<open>bin_impl\<close> fills a 64-character stack buffer from its end. The buffer is a list of
  length 64 whose initial contents are indeterminate (a parameter of \<open>bin_impl_buf\<close>,
  which the result does not depend on), the
  write position \<^verbatim>\<open>index\<close> is a natural number, and a write before the start of the
  buffer (\<^verbatim>\<open>--index\<close> at \<^verbatim>\<open>index = 0\<close>) is the value \<open>None\<close>.
  \<^verbatim>\<open>static_cast<uint64_t>(value)\<close> keeps the 64 bits of the \<^verbatim>\<open>Int64\<close>, so the input is
  a \<open>64 word\<close>.
\<close>

definition max_bits :: nat where
  "max_bits = 8 * 8"

definition bin_digit :: "64 word \<Rightarrow> char" where
  "bin_digit n = char_of (of_char (CHR ''0'') + unat (n AND 1))"

function bin_loop :: "64 word \<Rightarrow> char list \<Rightarrow> nat \<Rightarrow> (char list \<times> nat) option" where
  "bin_loop n result index =
     (if index = 0 \<or> length result < index then None
      else
        let index' = index - 1;
            result' = result[index' := bin_digit n];
            n' = drop_bit 1 n
        in if n' \<noteq> 0 then bin_loop n' result' index' else Some (result', index'))"
  by pat_completeness auto
termination
  by (relation "measure (\<lambda>(n, result, index). index)") auto

declare bin_loop.simps [simp del]

definition bin_impl_buf :: "char list \<Rightarrow> 64 word \<Rightarrow> string option" where
  "bin_impl_buf result value =
     (case bin_loop value result max_bits of
        None \<Rightarrow> None
      | Some (result', index) \<Rightarrow> Some (take (max_bits - index) (drop index result')))"

definition bin_impl :: "64 word \<Rightarrow> string option" where
  "bin_impl value = bin_impl_buf (replicate max_bits (CHR 0x00)) value"

text \<open>
  The reading of a digit string that the specification speaks of: the number whose
  binary digits, most significant first, are the characters of the string.
\<close>

definition binary_value :: "string \<Rightarrow> nat" where
  "binary_value s = foldl (\<lambda>acc c. 2 * acc + (if c = CHR ''1'' then 1 else 0)) 0 s"

fun binary_digits :: "nat \<Rightarrow> string" where
  "binary_digits n =
     (if n < 2 then [if n = 0 then CHR ''0'' else CHR ''1'']
      else binary_digits (n div 2) @ [if n mod 2 = 0 then CHR ''0'' else CHR ''1''])"

declare binary_digits.simps [simp del]


section \<open>Numeric model (be/src/vec/functions/math.cpp)\<close>

text \<open>
  \<^verbatim>\<open>Float64\<close> values are modelled by real numbers with exact arithmetic: \<^verbatim>\<open>std::log\<close> is
  \<open>ln\<close>, \<^verbatim>\<open>std::fabs\<close> and \<^verbatim>\<open>std::abs\<close> are \<open>\<bar>_\<bar>\<close>, \<^verbatim>\<open>std::sin\<close> is \<open>sin\<close>. Rounding, the
  infinities and NaN are outside this model. Fixed-width integers are words. A byte of a
  null map (\<^verbatim>\<open>UInt8\<close>, 0 or 1) is a truth value.
\<close>

type_synonym Float64 = real

type_synonym NullMap = "bool list"

text \<open>
  The rows of a nullable column as the query sees them: \<open>None\<close> where the null map is
  set, the stored value elsewhere.
\<close>

definition nullable_rows :: "Float64 list \<times> NullMap \<Rightarrow> Float64 option list" where
  "nullable_rows col =
     map (\<lambda>(x, is_null). if is_null then None else Some x) (zip (fst col) (snd col))"

text \<open>
  \<^verbatim>\<open>ColumnFloat64::create(n)\<close> allocates \<open>n\<close> cells without initialising them; their
  contents are given by an arbitrary function of the position.
\<close>

definition create_uninitialized :: "(nat \<Rightarrow> Float64) \<Rightarrow> nat \<Rightarrow> Float64 list" where
  "create_uninitialized garbage n = map garbage [0..<n]"


subsection \<open>Conditionally-nullable unary functions\<close>

definition AcosName_is_invalid_input :: "Float64 \<Rightarrow> bool" where
  "AcosName_is_invalid_input x = (x < - 1 \<or> x > 1)"

definition AcoshName_is_invalid_input :: "Float64 \<Rightarrow> bool" where
  "AcoshName_is_invalid_input x = (x < 1)"

definition AsinName_is_invalid_input :: "Float64 \<Rightarrow> bool" where
  "AsinName_is_invalid_input x = (x < - 1 \<or> x > 1)"

definition AtanhName_is_invalid_input :: "Float64 \<Rightarrow> bool" where
  "AtanhName_is_invalid_input x = (x \<le> - 1 \<or> x \<ge> 1)"

definition SqrtName_is_invalid_input :: "Float64 \<Rightarrow> bool" where
  "SqrtName_is_invalid_input x = (x < 0)"

text \<open>
  Modelled from the spec: the dispatcher \<^verbatim>\<open>FunctionMathUnaryAlwayNullable\<close> and the kernel
  \<^verbatim>\<open>UnaryFunctionPlainAlwayNullable\<close> of \<^verbatim>\<open>function_math_unary_alway_nullable.h\<close>, which
  is not among the sources. The specification (4.2): for each row, evaluate the validity
  predicate against the raw input value before applying the transform; if invalid, mark
  the output null and leave the output cell undefined; otherwise compute and store the
  transform.
\<close>

definition execute_alway_nullable ::
  "(Float64 \<Rightarrow> bool) \<Rightarrow> (Float64 \<Rightarrow> Float64) \<Rightarrow> (nat \<Rightarrow> Float64) \<Rightarrow> Float64 list
     \<Rightarrow> Float64 list \<times> NullMap" where
  "execute_alway_nullable is_invalid_input Function garbage src =
     fold (\<lambda>i (dst, null_map).
             if is_invalid_input (src ! i) then (dst, null_map[i := True])
             else (dst[i := Function (src ! i)], null_map))
       [0..<length src]
       (create_uninitialized garbage (length src), replicate (length src) False)"

definition FunctionAcos :: "(nat \<Rightarrow> Float64) \<Rightarrow> Float64 list \<Rightarrow> Float64 list \<times> NullMap" where
  "FunctionAcos = execute_alway_nullable AcosName_is_invalid_input arccos"

definition FunctionAcosh :: "(nat \<Rightarrow> Float64) \<Rightarrow> Float64 list \<Rightarrow> Float64 list \<times> NullMap" where
  "FunctionAcosh = execute_alway_nullable AcoshName_is_invalid_input arcosh"

definition FunctionAsin :: "(nat \<Rightarrow> Float64) \<Rightarrow> Float64 list \<Rightarrow> Float64 list \<times> NullMap" where
  "FunctionAsin = execute_alway_nullable AsinName_is_invalid_input arcsin"

definition FunctionAtanh :: "(nat \<Rightarrow> Float64) \<Rightarrow> Float64 list \<Rightarrow> Float64 list \<times> NullMap" where
  "FunctionAtanh = execute_alway_nullable AtanhName_is_invalid_input artanh"

definition FunctionSqrt :: "(nat \<Rightarrow> Float64) \<Rightarrow> Float64 list \<Rightarrow> Float64 list \<times> NullMap" where
  "FunctionSqrt = execute_alway_nullable SqrtName_is_invalid_input sqrt"


subsection \<open>Two-argument logarithm (LogImpl)\<close>

definition EPSILON :: Float64 where
  "EPSILON = 1 / 10 ^ 9"

text \<open>
  The per-row form \<^verbatim>\<open>apply(A a, B b, UInt8& is_null)\<close>: the returned value and the null
  flag. \<open>a\<close> is the base and \<open>b\<close> the argument.
\<close>

definition LogImpl_apply :: "Float64 \<Rightarrow> Float64 \<Rightarrow> Float64 \<times> bool" where
  "LogImpl_apply a b = (ln b / ln a, a \<le> 0 \<or> b \<le> 0 \<or> \<bar>a - 1\<bar> < EPSILON)"

text \<open>
  The whole-column form \<^verbatim>\<open>apply(const ArrayA& a, B b, Container& c, ArrayNull& null_map)\<close>.
  It returns the containers \<open>c\<close> and \<open>null_map\<close> as it leaves them; \<open>None\<close> stands for an
  access outside \<open>null_map\<close> (by \<^verbatim>\<open>memset\<close>) or outside \<open>a\<close> (by the loop).
\<close>

definition LogImpl_apply_step ::
  "Float64 list \<Rightarrow> Float64 \<Rightarrow> nat \<Rightarrow> Float64 list \<times> NullMap \<Rightarrow> Float64 list \<times> NullMap" where
  "LogImpl_apply_step a b i st =
     (case st of (c, null_map) \<Rightarrow>
        if a ! i \<le> 0 \<or> \<bar>a ! i - 1\<bar> < EPSILON then (c, null_map[i := True])
        else (c[i := ln b / ln (a ! i)], null_map))"

definition LogImpl_apply_vector ::
  "Float64 list \<Rightarrow> Float64 \<Rightarrow> Float64 list \<Rightarrow> NullMap \<Rightarrow> (Float64 list \<times> NullMap) option" where
  "LogImpl_apply_vector a b c null_map =
     (let size = length c;
          is_null = (b \<le> 0)
      in if length null_map < size then None
         else let null_map' = replicate size is_null @ drop size null_map
              in if \<not> is_null
                 then if length a < size then None
                      else Some (fold (LogImpl_apply_step a b) [0..<size] (c, null_map'))
                 else Some (c, null_map'))"


subsection \<open>Sign (SignImpl)\<close>

text \<open>
  \<^verbatim>\<open>apply\<close> returns a \<^verbatim>\<open>UInt8\<close>: \<^verbatim>\<open>static_cast<UInt8>\<close> of the \<^verbatim>\<open>int\<close> -1, 0 or 1. One
  definition per branch of the \<^verbatim>\<open>if constexpr\<close> chain: floating-point inputs, signed
  integers of any width, unsigned integers of any width.
\<close>

definition SignImpl_apply_float :: "Float64 \<Rightarrow> 8 word" where
  "SignImpl_apply_float a = word_of_int (if a < 0 then - 1 else if a = 0 then 0 else 1)"

definition SignImpl_apply_signed :: "'a::len word \<Rightarrow> 8 word" where
  "SignImpl_apply_signed a = word_of_int (if a <s 0 then - 1 else if a = 0 then 0 else 1)"

definition SignImpl_apply_unsigned :: "'a::len word \<Rightarrow> 8 word" where
  "SignImpl_apply_unsigned a = word_of_int (if a = 0 then 0 else 1)"

text \<open>
  The result column has \<^verbatim>\<open>ResultType = TYPE_TINYINT\<close>: its cells are \<^verbatim>\<open>Int8\<close>, so the
  eight bits that \<^verbatim>\<open>apply\<close> returns are read as a two's-complement number.
\<close>

definition tinyint_value :: "8 word \<Rightarrow> int" where
  "tinyint_value w = sint w"


subsection \<open>Absolute value (AbsImpl)\<close>

text \<open>
  The result type \<^verbatim>\<open>NumberTraits::ResultOfAbs<A>::Type\<close> is declared in
  \<^verbatim>\<open>vec/data_types/number_traits.h\<close>, which is not among the sources; for integers its
  width is the type parameter \<open>'r\<close>. In the signed branch \<^verbatim>\<open>~a\<close> is computed at the
  width of the input (or of \<^verbatim>\<open>int\<close>), converted to the result type with its sign, and
  1 is added there.
\<close>

definition AbsImpl_apply_signed :: "'a::len word \<Rightarrow> 'r::len word" where
  "AbsImpl_apply_signed a = (if a <s 0 then scast (NOT a) + 1 else scast a)"









subsection \<open>Sine kernel (UnaryFunctionPlainSin)\<close>

text \<open>
  What the kernel takes from its surroundings: whether the build defines \<^verbatim>\<open>BE_TEST\<close>,
  whether \<^verbatim>\<open>dlopen("libm.so.6", RTLD_LAZY)\<close> returns a handle, and what
  \<^verbatim>\<open>dlsym(handle, "sin")\<close> returns (\<open>None\<close> is the null pointer).
\<close>

record sin_environment =
  BE_TEST :: bool
  dlopen_libm :: "nat option"
  dlsym_sin :: "nat \<Rightarrow> (Float64 \<Rightarrow> Float64) option"

definition std_sin :: "Float64 \<Rightarrow> Float64" where
  "std_sin x = sin x"

definition get_sin_func :: "sin_environment \<Rightarrow> (Float64 \<Rightarrow> Float64)" where
  "get_sin_func env =
     (if \<not> BE_TEST env then
        (case dlopen_libm env of
           Some handle \<Rightarrow>
             (case dlsym_sin env handle of
                Some sin_func \<Rightarrow> sin_func
              | None \<Rightarrow> std_sin)
         | None \<Rightarrow> std_sin)
      else std_sin)"

text \<open>
  \<^verbatim>\<open>execute\<close> keeps the pointer in a function-local static, initialised by the first
  call. The static is the state: \<open>None\<close> before the first call.
\<close>

definition UnaryFunctionPlainSin_execute ::
  "sin_environment \<Rightarrow> (Float64 \<Rightarrow> Float64) option \<Rightarrow> Float64
     \<Rightarrow> Float64 \<times> (Float64 \<Rightarrow> Float64) option" where
  "UnaryFunctionPlainSin_execute env static_sin_func src =
     (let sin_func = (case static_sin_func of None \<Rightarrow> get_sin_func env | Some f \<Rightarrow> f)
      in (sin_func src, Some sin_func))"

text \<open>A run of calls, threading the static through them.\<close>

fun execute_all ::
  "sin_environment \<Rightarrow> (Float64 \<Rightarrow> Float64) option \<Rightarrow> Float64 list \<Rightarrow> Float64 list" where
  "execute_all env st [] = []"
| "execute_all env st (x # xs) =
     (case UnaryFunctionPlainSin_execute env st x of
        (dst, st') \<Rightarrow> dst # execute_all env st' xs)"


subsection \<open>Gaussian cumulative distribution (FunctionNormalCdf)\<close>

text \<open>
  \<^verbatim>\<open>std::erf\<close> is the error function of the C library, given here by its Maclaurin series
  \<open>2 / sqrt pi * (\<Sum>n. (-1)^n x^(2n+1) / (n! (2n+1)))\<close>.
\<close>

definition erf :: "Float64 \<Rightarrow> Float64" where
  "erf x = 2 / sqrt pi * (\<Sum>n. (- 1) ^ n * x ^ (2 * n + 1) / (fact n * real (2 * n + 1)))"

definition sqrt2 :: Float64 where
  "sqrt2 = sqrt 2"

definition check_argument :: "Float64 \<Rightarrow> bool" where
  "check_argument sd = (sd > 0)"

definition calculate_cell :: "Float64 \<Rightarrow> Float64 \<Rightarrow> Float64 \<Rightarrow> Float64" where
  "calculate_cell mean sd v = 0.5 * (erf ((v - mean) / (sd * sqrt2)) + 1)"

text \<open>
  An argument column is a full column of values or a constant column: a data column
  holding the value, and the row count it is broadcast to.
\<close>

datatype column = ColumnFloat64 "Float64 list" | ColumnConst "Float64 list" nat

definition is_column_const :: "column \<Rightarrow> bool" where
  "is_column_const col = (case col of ColumnConst _ _ \<Rightarrow> True | ColumnFloat64 _ \<Rightarrow> False)"

definition get_data_column :: "column \<Rightarrow> Float64 list" where
  "get_data_column col = (case col of ColumnConst d _ \<Rightarrow> d | ColumnFloat64 d \<Rightarrow> d)"

text \<open>
  Modelled from the spec: \<^verbatim>\<open>index_check_const\<close> of \<^verbatim>\<open>vec/columns/column_const.h\<close>, which
  is not among the sources. The specification (4.4): each argument column is a single
  value reused for every row if constant, or indexed per row otherwise.
\<close>

definition index_check_const :: "nat \<Rightarrow> bool \<Rightarrow> nat" where
  "index_check_const arg constancy = (if constancy then 0 else arg)"

text \<open>\<^verbatim>\<open>get_element(n)\<close> reads cell \<open>n\<close>; outside the column it is \<open>None\<close>.\<close>

definition get_element :: "Float64 list \<Rightarrow> nat \<Rightarrow> Float64 option" where
  "get_element d n = (if n < length d then Some (d ! n) else None)"

text \<open>The value of a column at a row: what the loop of \<^verbatim>\<open>execute_impl\<close> reads.\<close>

definition row_value :: "column \<Rightarrow> nat \<Rightarrow> Float64 option" where
  "row_value col i = get_element (get_data_column col) (index_check_const i (is_column_const col))"

definition execute_impl_step ::
  "column \<Rightarrow> column \<Rightarrow> column \<Rightarrow> nat \<Rightarrow> (Float64 list \<times> NullMap) option
     \<Rightarrow> (Float64 list \<times> NullMap) option" where
  "execute_impl_step mean_col sd_col value_col i st =
     (case st of
        None \<Rightarrow> None
      | Some (result_data, result_null_map) \<Rightarrow>
          (case (row_value mean_col i, row_value sd_col i, row_value value_col i) of
             (Some mean, Some sd, Some v) \<Rightarrow>
               if \<not> check_argument sd then Some (result_data, result_null_map[i := True])
               else Some (result_data[i := calculate_cell mean sd v], result_null_map)
           | _ \<Rightarrow> None))"

text \<open>
  \<^verbatim>\<open>execute_impl\<close> on its three argument columns. The result is the pair of containers
  that \<^verbatim>\<open>ColumnNullable::create\<close> receives; \<open>None\<close> stands for a read outside a column.
\<close>

definition execute_impl ::
  "(nat \<Rightarrow> Float64) \<Rightarrow> column \<Rightarrow> column \<Rightarrow> column \<Rightarrow> nat \<Rightarrow> (Float64 list \<times> NullMap) option" where
  "execute_impl garbage mean_col sd_col value_col input_rows_count =
     fold (execute_impl_step mean_col sd_col value_col) [0..<input_rows_count]
       (Some (create_uninitialized garbage input_rows_count,
              replicate input_rows_count False))"

datatype data_type = DataTypeFloat64 | DataTypeNullable data_type

definition make_nullable :: "data_type \<Rightarrow> data_type" where
  "make_nullable t = (case t of DataTypeNullable _ \<Rightarrow> t | _ \<Rightarrow> DataTypeNullable t)"

definition is_nullable :: "data_type \<Rightarrow> bool" where
  "is_nullable t = (case t of DataTypeNullable _ \<Rightarrow> True | _ \<Rightarrow> False)"

definition get_return_type_impl :: "data_type list \<Rightarrow> data_type" where
  "get_return_type_impl arguments = make_nullable DataTypeFloat64"

text \<open>
  A column is well formed for \<open>n\<close> rows when a full column holds \<open>n\<close> values and a
  constant column holds its one value and is broadcast to \<open>n\<close> rows (the invariant of
  the specification's data model).
\<close>

definition column_rows :: "column \<Rightarrow> nat \<Rightarrow> bool" where
  "column_rows col n =
     (case col of ColumnFloat64 d \<Rightarrow> length d = n | ColumnConst d s \<Rightarrow> length d = 1 \<and> s = n)"

text \<open>The full column that a column stands for (\<^verbatim>\<open>convert_to_full_column\<close>).\<close>

definition convert_to_full_column :: "column \<Rightarrow> Float64 list" where
  "convert_to_full_column col =
     (case col of ColumnFloat64 d \<Rightarrow> d | ColumnConst d s \<Rightarrow> replicate s (d ! 0))"


text \<open>
  The row of \<open>normal_cdf(mean, sd, v)\<close> as the specification states it: null when the
  standard deviation is not strictly positive, the closed form otherwise.
\<close>

definition normal_cdf_row :: "Float64 \<Rightarrow> Float64 \<Rightarrow> Float64 \<Rightarrow> Float64 option" where
  "normal_cdf_row mean sd v =
     (if sd \<le> 0 then None else Some (0.5 * (erf ((v - mean) / (sd * sqrt 2)) + 1)))"


subsection \<open>Constant columns in the unary dispatcher\<close>

text \<open>
  Modelled from the spec: the treatment of a constant input by the unary dispatcher
  (\<^verbatim>\<open>function_math_unary_alway_nullable.h\<close> and the constant handling of \<^verbatim>\<open>IFunction\<close>
  are not among the sources). The specification (3, 4.2): a constant column stores one
  value, logically broadcast to all rows; the dispatcher's output has the row count of
  its input. The function is evaluated on the stored value and the one resulting row is
  broadcast.
\<close>

definition execute_alway_nullable_column ::
  "(Float64 \<Rightarrow> bool) \<Rightarrow> (Float64 \<Rightarrow> Float64) \<Rightarrow> (nat \<Rightarrow> Float64) \<Rightarrow> column
     \<Rightarrow> Float64 option list" where
  "execute_alway_nullable_column is_invalid_input Function garbage col =
     (case col of
        ColumnFloat64 d \<Rightarrow>
          nullable_rows (execute_alway_nullable is_invalid_input Function garbage d)
      | ColumnConst d s \<Rightarrow>
          concat (replicate s
            (nullable_rows (execute_alway_nullable is_invalid_input Function garbage d))))"


section \<open>Theorems\<close>

subsection \<open>Parser mode\<close>

text \<open>
  C10. When the tokenizer-mode key is absent from the properties, the resolved mode is
  the smart-mode constant if the tokenizer-kind key is present with the ik parser
  constant as its value, and the coarse-granularity constant otherwise; when the
  tokenizer-mode key is present, its value is returned unchanged.
\<close>

theorem get_parser_mode_string_from_properties_spec:
  "(properties (INVERTED_INDEX_PARSER_MODE_KEY K) = None \<longrightarrow>
      get_parser_mode_string_from_properties K properties =
        (if properties (INVERTED_INDEX_PARSER_KEY K) = Some (INVERTED_INDEX_PARSER_IK K)
         then INVERTED_INDEX_PARSER_SMART K
         else INVERTED_INDEX_PARSER_COARSE_GRANULARITY K))
   \<and> (\<forall>v. properties (INVERTED_INDEX_PARSER_MODE_KEY K) = Some v \<longrightarrow>
          get_parser_mode_string_from_properties K properties = v)"
  by (auto simp: get_parser_mode_string_from_properties_def split: option.splits)

theorem get_parser_mode_string_from_properties_spec_witness:
  "[''parser'' \<mapsto> ''ik''] ''parser_mode'' = None
   \<and> get_parser_mode_string_from_properties example_constants [''parser'' \<mapsto> ''ik'']
       = ''ik_smart''
   \<and> [''parser_mode'' \<mapsto> ''fine_grained'', ''parser'' \<mapsto> ''ik''] ''parser_mode''
       = Some ''fine_grained''
   \<and> get_parser_mode_string_from_properties example_constants
         [''parser_mode'' \<mapsto> ''fine_grained'', ''parser'' \<mapsto> ''ik'']
       = ''fine_grained''"
  using get_parser_mode_string_from_properties_spec
          [of "[''parser'' \<mapsto> ''ik'']" example_constants]
        get_parser_mode_string_from_properties_spec
          [of "[''parser_mode'' \<mapsto> ''fine_grained'', ''parser'' \<mapsto> ''ik'']" example_constants]
  by (simp add: example_constants_def)

subsection \<open>Base-2 string conversion\<close>

lemma bin_digit_eq: "bin_digit n = (if unat n mod 2 = 0 then CHR ''0'' else CHR ''1'')"
proof -
  have "unat (n AND 1) = unat n mod 2"
    by (simp add: and_one_eq unat_mod)
  moreover have "char_of (48::nat) = CHR ''0''" "char_of (49::nat) = CHR ''1''"
    by code_simp+
  ultimately show ?thesis
    by (auto simp: bin_digit_def)
qed

lemma unat_drop_bit1: "unat (drop_bit 1 (n :: 64 word)) = unat n div 2"
  by (simp add: unat_drop_bit_eq drop_bit_eq_div unat_div)

lemma drop_bit1_eq0: "drop_bit 1 (n :: 64 word) = 0 \<longleftrightarrow> unat n < 2"
proof -
  have "drop_bit 1 n = 0 \<longleftrightarrow> unat (drop_bit 1 n) = 0"
    by (simp add: unat_eq_0)
  also have "\<dots> \<longleftrightarrow> unat n div 2 = 0"
    by (simp only: unat_drop_bit1)
  finally show ?thesis by (simp add: div_eq_0_iff)
qed

lemma bin_loop_inv:
  "length result = 64 \<Longrightarrow> index \<le> 64 \<Longrightarrow> unat n < 2 ^ index \<Longrightarrow> 0 < index \<Longrightarrow>
   \<exists>result' index'. bin_loop n result index = Some (result', index') \<and> index' < index
      \<and> length result' = 64
      \<and> drop index' result' = binary_digits (unat n) @ drop index result"
proof (induction n result index rule: bin_loop.induct)
  case (1 n result index)
  let ?i = "index - 1"
  let ?r = "result[?i := bin_digit n]"
  let ?n = "drop_bit 1 n"
  have drop1: "drop ?i ?r = bin_digit n # drop index result"
    using "1.prems" by (simp add: drop_update_cancel Cons_nth_drop_Suc [symmetric] upd_conv_take_nth_drop Suc_diff_Suc)
  show ?case
  proof (cases "?n = 0")
    case True
    then have small: "unat n < 2" using drop_bit1_eq0 [of n] by simp
    have "bin_loop n result index = Some (?r, ?i)"
      using True "1.prems" by (subst bin_loop.simps) (simp add: Let_def)
    moreover have "binary_digits (unat n) = [bin_digit n]"
      using small by (subst binary_digits.simps) (auto simp: bin_digit_eq)
    ultimately show ?thesis using drop1 "1.prems" by simp
  next
    case False
    then have big: "2 \<le> unat n" using drop_bit1_eq0 [of n] by simp
    have step: "bin_loop n result index = bin_loop ?n ?r ?i"
      using False "1.prems" by (subst bin_loop.simps) (simp add: Let_def)
    have idx: "0 < ?i"
    proof (rule ccontr)
      assume "\<not> 0 < ?i"
      then have "index = 1" using "1.prems" by simp
      then show False using "1.prems" big by simp
    qed
    have bound: "unat ?n < 2 ^ ?i"
    proof -
      have "unat n < 2 * 2 ^ ?i" using "1.prems" by (cases index) simp_all
      then have "unat n div 2 < 2 ^ ?i" by simp
      then show ?thesis by (simp only: unat_drop_bit1)
    qed
    have guard: "\<not> (index = 0 \<or> length result < index)" using "1.prems" by simp
    have len: "length ?r = 64" "?i \<le> 64" using "1.prems" by simp_all
    from "1.IH" [OF guard refl refl refl False len bound idx]
    obtain r' i' where ih: "bin_loop ?n ?r ?i = Some (r', i')" "i' < ?i" "length r' = 64"
        "drop i' r' = binary_digits (unat ?n) @ drop ?i ?r"
      by blast
    have "binary_digits (unat n) = binary_digits (unat n div 2) @ [bin_digit n]"
      using big by (subst binary_digits.simps) (auto simp: bin_digit_eq)
    then have "drop i' r' = binary_digits (unat n) @ drop index result"
      using ih(4) drop1 by (simp only: unat_drop_bit1) simp
    then show ?thesis using ih step by auto
  qed
qed

lemma bin_impl_buf_eq:
  assumes "length result = 64"
  shows "bin_impl_buf result v = Some (binary_digits (unat v))"
proof -
  have "unat v < 2 ^ 64" using unsigned_less [of v] by simp
  with bin_loop_inv [of result 64 v] assms
  obtain r' i' where h: "bin_loop v result 64 = Some (r', i')" "i' < 64" "length r' = 64"
      "drop i' r' = binary_digits (unat v) @ drop 64 result"
    by auto
  have "length (drop i' r') = 64 - i'" using h(3) by simp
  then have "take (64 - i') (drop i' r') = drop i' r'"
    by (metis order_refl take_all)
  moreover have "drop 64 result = []" using assms by simp
  ultimately show ?thesis using h(1,4) by (simp add: bin_impl_buf_def max_bits_def)
qed

lemma bin_impl_buf_independent:
  "length result = max_bits \<Longrightarrow> bin_impl_buf result v = bin_impl v"
  by (simp add: bin_impl_def bin_impl_buf_eq max_bits_def)

lemma bin_impl_eq: "bin_impl v = Some (binary_digits (unat v))"
  by (simp add: bin_impl_def bin_impl_buf_eq max_bits_def)

lemma binary_value_append:
  "binary_value (s @ [c]) = 2 * binary_value s + (if c = CHR ''1'' then 1 else 0)"
  by (simp add: binary_value_def)

lemma binary_value_digits: "binary_value (binary_digits n) = n"
proof (induction n rule: binary_digits.induct)
  case (1 n)
  show ?case
  proof (cases "n < 2")
    case True
    then show ?thesis
      by (subst binary_digits.simps) (auto simp: binary_value_def)
  next
    case False
    have "binary_value (binary_digits n) = 2 * binary_value (binary_digits (n div 2)) + n mod 2"
      using False by (subst binary_digits.simps) (auto simp: binary_value_append)
    then show ?thesis using "1.IH" [OF False] by simp
  qed
qed

lemma binary_digits_chars: "set (binary_digits n) \<subseteq> {CHR ''0'', CHR ''1''}"
proof (induction n rule: binary_digits.induct)
  case (1 n)
  show ?case
  proof (cases "n < 2")
    case True
    then show ?thesis by (subst binary_digits.simps) auto
  next
    case False
    then show ?thesis using "1.IH" [OF False] by (subst binary_digits.simps) auto
  qed
qed

lemma binary_digits_nonempty: "binary_digits n \<noteq> []"
  by (subst binary_digits.simps) simp

lemma binary_digits_hd: "hd (binary_digits n) = (if n = 0 then CHR ''0'' else CHR ''1'')"
proof (induction n rule: binary_digits.induct)
  case (1 n)
  show ?case
  proof (cases "n < 2")
    case True
    then show ?thesis by (subst binary_digits.simps) auto
  next
    case False
    then have "n div 2 \<noteq> 0" by simp
    then show ?thesis
      using False "1.IH" [OF False] binary_digits_nonempty [of "n div 2"]
      by (subst binary_digits.simps) (auto simp: hd_append)
  qed
qed

lemma binary_digits_length: "n < 2 ^ k \<Longrightarrow> 0 < k \<Longrightarrow> length (binary_digits n) \<le> k"
proof (induction n arbitrary: k rule: binary_digits.induct)
  case (1 n)
  show ?case
  proof (cases "n < 2")
    case True
    then show ?thesis using "1.prems" by (subst binary_digits.simps) auto
  next
    case False
    obtain j where k: "k = Suc j" using "1.prems" by (cases k) auto
    have "0 < j" using False "1.prems" k by (cases j) auto
    moreover have "n div 2 < 2 ^ j" using "1.prems" k by simp
    ultimately have "length (binary_digits (n div 2)) \<le> j" using "1.IH" [OF False] by simp
    then show ?thesis using False k by (subst binary_digits.simps) auto
  qed
qed

lemma binary_digits_zero_iff: "binary_digits n = ''0'' \<longleftrightarrow> n = 0"
proof
  assume "binary_digits n = ''0''"
  then have "binary_value (binary_digits n) = binary_value ''0''" by simp
  then show "n = 0" by (simp add: binary_value_digits) (simp add: binary_value_def)
next
  assume "n = 0"
  then show "binary_digits n = ''0''" by (subst binary_digits.simps) simp
qed

lemma binary_digits_ones: "binary_digits (2 ^ Suc k - 1) = replicate (Suc k) (CHR ''1'')"
proof (induction k)
  case 0
  show ?case by (subst binary_digits.simps) simp
next
  case (Suc k)
  have ge: "\<not> (2::nat) ^ Suc (Suc k) - 1 < 2"
  proof -
    have "(2::nat) ^ Suc (Suc k) = 4 * 2 ^ k" by simp
    moreover have "(1::nat) \<le> 2 ^ k" by simp
    ultimately show ?thesis by linarith
  qed
  have d: "((2::nat) ^ Suc (Suc k) - 1) div 2 = 2 ^ Suc k - 1" by simp
  have m: "((2::nat) ^ Suc (Suc k) - 1) mod 2 = 1"
  proof -
    have "odd ((2::nat) ^ Suc (Suc k) - 1)" by simp
    then show ?thesis by (simp only: odd_iff_mod_2_eq_one)
  qed
  have "binary_digits (2 ^ Suc (Suc k) - 1) = binary_digits (2 ^ Suc k - 1) @ [CHR ''1'']"
    using ge by (subst binary_digits.simps) (simp only: d m, simp)
  then show ?case using Suc.IH by (simp add: replicate_append_same)
qed

text \<open>
  C6. \<^verbatim>\<open>bin\<close> over 64-bit integers returns "0" for 0, "101" for 5 and sixty-four
  characters '1' for -1. For every input it returns, without ever writing outside its
  buffer, a string of the characters '0' and '1' that reads, most significant digit
  first, as the input taken as an unsigned 64-bit number; the string has at most 64
  characters, starts with '1' unless the input is 0, and is "0" only for input 0.
\<close>

theorem bin_impl_spec:
  "bin_impl 0 = Some ''0''
   \<and> bin_impl 5 = Some ''101''
   \<and> bin_impl (- 1) = Some (replicate 64 (CHR ''1''))
   \<and> (\<exists>s. bin_impl v = Some s
          \<and> set s \<subseteq> {CHR ''0'', CHR ''1''}
          \<and> binary_value s = unat v
          \<and> hd s = (if v = 0 then CHR ''0'' else CHR ''1'')
          \<and> (s = ''0'') = (v = 0)
          \<and> length s \<le> 64)"
proof -
  have zero: "bin_impl 0 = Some ''0''"
    by (simp add: bin_impl_eq binary_digits.simps)
  have five: "bin_impl 5 = Some ''101''"
    by (simp add: bin_impl_eq binary_digits.simps)
  have "unat (- 1 :: 64 word) = 2 ^ Suc 63 - 1"
    by (simp add: unsigned_minus_1_eq_mask mask_eq_exp_minus_1)
  then have ones: "bin_impl (- 1) = Some (replicate 64 (CHR ''1''))"
    using binary_digits_ones [of 63] by (simp add: bin_impl_eq)
  have len: "length (binary_digits (unat v)) \<le> 64"
    using binary_digits_length [of "unat v" 64] unsigned_less [of v] by simp
  have hd: "hd (binary_digits (unat v)) = (if v = 0 then CHR ''0'' else CHR ''1'')"
    by (simp add: binary_digits_hd unat_eq_0)
  have z: "(binary_digits (unat v) = ''0'') = (v = 0)"
    by (simp add: binary_digits_zero_iff unat_eq_0)
  have general: "\<exists>s. bin_impl v = Some s
          \<and> set s \<subseteq> {CHR ''0'', CHR ''1''}
          \<and> binary_value s = unat v
          \<and> hd s = (if v = 0 then CHR ''0'' else CHR ''1'')
          \<and> (s = ''0'') = (v = 0)
          \<and> length s \<le> 64"
    using len hd z binary_digits_chars [of "unat v"] binary_value_digits [of "unat v"]
    by (simp add: bin_impl_eq)
  from zero five ones general show ?thesis by blast
qed

subsection \<open>Sign\<close>

lemma sign_signed:
  "tinyint_value (SignImpl_apply_signed a) =
     (if sint a < 0 then - 1 else if sint a = 0 then 0 else 1)"
  by (simp add: tinyint_value_def SignImpl_apply_signed_def word_sless_alt signed_eq_0_iff)

lemma sign_float:
  "tinyint_value (SignImpl_apply_float x) = (if x < 0 then - 1 else if x = 0 then 0 else 1)"
  by (simp add: tinyint_value_def SignImpl_apply_float_def)

lemma sign_unsigned:
  "tinyint_value (SignImpl_apply_unsigned n) = (if unat n = 0 then 0 else 1)"
  by (simp add: tinyint_value_def SignImpl_apply_unsigned_def unat_eq_0)

text \<open>
  C5. For a signed integer \<open>a\<close> of any width and for a floating-point \<open>x\<close>, the value
  read from the tinyint result column is -1 for a negative input, 0 for zero and 1 for
  a positive input, so \<open>sign(-7) = -1\<close>, \<open>sign(0) = 0\<close> and \<open>sign(7) = 1\<close>. For an
  unsigned \<open>n\<close> it is 0 for \<open>n = 0\<close> and 1 otherwise, and never -1.
\<close>

theorem SignImpl_apply_spec:
  "tinyint_value (SignImpl_apply_signed a) =
     (if sint a < 0 then - 1 else if sint a = 0 then 0 else 1)
   \<and> tinyint_value (SignImpl_apply_float x) =
     (if x < 0 then - 1 else if x = 0 then 0 else 1)
   \<and> tinyint_value (SignImpl_apply_unsigned n) = (if unat n = 0 then 0 else 1)
   \<and> tinyint_value (SignImpl_apply_unsigned n) \<noteq> - 1
   \<and> tinyint_value (SignImpl_apply_signed (- 7 :: 32 word)) = - 1
   \<and> tinyint_value (SignImpl_apply_signed (0 :: 32 word)) = 0
   \<and> tinyint_value (SignImpl_apply_signed (7 :: 32 word)) = 1
   \<and> tinyint_value (SignImpl_apply_float (- 7)) = - 1
   \<and> tinyint_value (SignImpl_apply_float 0) = 0
   \<and> tinyint_value (SignImpl_apply_float 7) = 1"
  by (simp add: sign_signed sign_float sign_unsigned)

subsection \<open>Absolute value\<close>



text \<open>
  The data model has no signed integer wider than 128 bits. Where a result type is no
  wider than the input, the minimum wraps around to itself: eight bits in, eight bits
  out, at -128.
\<close>

lemma AbsImpl_apply_signed_same_width:
  "sint (AbsImpl_apply_signed (- 128 :: 8 word) :: 8 word) = - 128"
  by (simp add: AbsImpl_apply_signed_def word_sless_alt)




subsection \<open>Two-argument logarithm\<close>

lemma log_2_8: "LogImpl_apply 2 8 = (3, False)"
proof -
  have "ln (8::real) = ln (2 ^ 3)" by simp
  also have "\<dots> = 3 * ln 2" by (simp only: ln_realpow)
  finally have "ln (8::real) / ln 2 = 3" by simp
  moreover have "\<not> \<bar>(2::real) - 1\<bar> < EPSILON" by (simp add: EPSILON_def)
  ultimately show ?thesis by (simp add: LogImpl_apply_def)
qed

lemma log_null_iff:
  "snd (LogImpl_apply base argument) =
     (base \<le> 0 \<or> \<bar>base - 1\<bar> < EPSILON \<or> argument \<le> 0)"
  unfolding LogImpl_apply_def snd_conv by blast

lemma log_base_one: "snd (LogImpl_apply 1 x)"
  unfolding LogImpl_apply_def snd_conv by (simp add: EPSILON_def)

text \<open>
  C1. For \<open>log(base, argument)\<close> the row is null exactly when the base is at most 0, or
  the base is less than \<open>EPSILON = 1e-9\<close> away from 1, or the argument is at most 0. So
  \<open>log(1, x)\<close> is null for every \<open>x\<close>, and \<open>log(b, x)\<close> with \<open>b \<le> 0\<close> is null for
  every \<open>x\<close>. The value is \<open>ln argument / ln base\<close>, and \<open>log(2, 8)\<close> is 3 and not null.
\<close>

theorem LogImpl_apply_spec:
  "snd (LogImpl_apply base argument) =
     (base \<le> 0 \<or> \<bar>base - 1\<bar> < EPSILON \<or> argument \<le> 0)
   \<and> EPSILON = 1 / 1000000000
   \<and> snd (LogImpl_apply 1 x)
   \<and> (b \<le> 0 \<longrightarrow> snd (LogImpl_apply b x))
   \<and> fst (LogImpl_apply base argument) = ln argument / ln base
   \<and> LogImpl_apply 2 8 = (3, False)"
proof (intro conjI)
  show "snd (LogImpl_apply base argument) =
     (base \<le> 0 \<or> \<bar>base - 1\<bar> < EPSILON \<or> argument \<le> 0)"
    by (rule log_null_iff)
  show "EPSILON = 1 / 1000000000"
    by (simp add: EPSILON_def)
  show "snd (LogImpl_apply 1 x)"
    by (rule log_base_one)
  show "b \<le> 0 \<longrightarrow> snd (LogImpl_apply b x)"
    unfolding LogImpl_apply_def snd_conv by blast
  show "fst (LogImpl_apply base argument) = ln argument / ln base"
    unfolding LogImpl_apply_def fst_conv by (rule refl)
  show "LogImpl_apply 2 8 = (3, False)"
    by (rule log_2_8)
qed

theorem LogImpl_apply_spec_witness:
  "(- 2 :: real) \<le> 0 \<and> snd (LogImpl_apply (- 2) 8)
   \<and> snd (LogImpl_apply 1 8) \<and> snd (LogImpl_apply 2 0)
   \<and> \<not> snd (LogImpl_apply 2 8) \<and> fst (LogImpl_apply 2 8) = 3"
proof -
  have neg: "(- 2 :: real) \<le> 0" by simp
  have a: "snd (LogImpl_apply (- 2) 8)"
    using LogImpl_apply_spec [of 2 0 8 "- 2"] neg by blast
  have b: "snd (LogImpl_apply 1 8)"
    using LogImpl_apply_spec [of 2 0 8 "- 2"] by blast
  have c: "snd (LogImpl_apply 2 0)"
    using LogImpl_apply_spec [of 2 0 8 "- 2"] by simp
  have d: "LogImpl_apply 2 8 = (3, False)"
    using LogImpl_apply_spec [of 2 0 8 "- 2"] by blast
  from neg a b c d show ?thesis by simp
qed

subsection \<open>Row loops over a result column and its null map\<close>

lemma fold_rows:
  "fold (\<lambda>i (c, nm). if P i then (c, nm[i := True]) else (c[i := g i], nm)) [0..<k] (c0, nm0) =
     (map (\<lambda>i. if i < k \<and> \<not> P i then g i else c0 ! i) [0..<length c0],
      map (\<lambda>i. if i < k \<and> P i then True else nm0 ! i) [0..<length nm0])"
proof (induction k)
  case 0
  show ?case by (simp add: map_nth)
next
  case (Suc k)
  let ?c = "\<lambda>i. if i < k \<and> \<not> P i then g i else c0 ! i"
  let ?n = "\<lambda>i. if i < k \<and> P i then True else nm0 ! i"
  have c: "(map ?c [0..<length c0])[k := g k] =
      map (\<lambda>i. if i < Suc k \<and> \<not> P i then g i else c0 ! i) [0..<length c0]" if "\<not> P k"
  proof (rule nth_equalityI)
    show "length ((map ?c [0..<length c0])[k := g k]) =
        length (map (\<lambda>i. if i < Suc k \<and> \<not> P i then g i else c0 ! i) [0..<length c0])"
      by simp
  next
    fix i assume "i < length ((map ?c [0..<length c0])[k := g k])"
    then have i: "i < length c0" by simp
    show "(map ?c [0..<length c0])[k := g k] ! i =
        map (\<lambda>i. if i < Suc k \<and> \<not> P i then g i else c0 ! i) [0..<length c0] ! i"
      using i that by (cases "i = k") (auto simp: less_Suc_eq)
  qed
  have c': "map ?c [0..<length c0] =
      map (\<lambda>i. if i < Suc k \<and> \<not> P i then g i else c0 ! i) [0..<length c0]" if "P k"
    using that by (intro nth_equalityI) (auto simp: less_Suc_eq)
  have n: "(map ?n [0..<length nm0])[k := True] =
      map (\<lambda>i. if i < Suc k \<and> P i then True else nm0 ! i) [0..<length nm0]" if "P k"
  proof (rule nth_equalityI)
    show "length ((map ?n [0..<length nm0])[k := True]) =
        length (map (\<lambda>i. if i < Suc k \<and> P i then True else nm0 ! i) [0..<length nm0])"
      by simp
  next
    fix i assume "i < length ((map ?n [0..<length nm0])[k := True])"
    then have i: "i < length nm0" by simp
    show "(map ?n [0..<length nm0])[k := True] ! i =
        map (\<lambda>i. if i < Suc k \<and> P i then True else nm0 ! i) [0..<length nm0] ! i"
      using i that by (cases "i = k") (auto simp: less_Suc_eq)
  qed
  have n': "map ?n [0..<length nm0] =
      map (\<lambda>i. if i < Suc k \<and> P i then True else nm0 ! i) [0..<length nm0]" if "\<not> P k"
    using that by (intro nth_equalityI) (auto simp: less_Suc_eq)
  let ?F = "\<lambda>i (c, nm). if P i then (c, nm[i := True]) else (c[i := g i], nm)"
  have step: "fold ?F [0..<Suc k] (c0, nm0) = ?F k (map ?c [0..<length c0], map ?n [0..<length nm0])"
    by (simp only: upt_Suc_append [OF le0] fold_append comp_apply Suc.IH fold_simps)
  show ?case
  proof (cases "P k")
    case True
    then have "?F k (map ?c [0..<length c0], map ?n [0..<length nm0]) =
        (map ?c [0..<length c0], (map ?n [0..<length nm0])[k := True])"
      by (simp only: prod.case if_True)
    then show ?thesis
      by (simp only: step c' [OF True] n [OF True])
  next
    case False
    then have "?F k (map ?c [0..<length c0], map ?n [0..<length nm0]) =
        ((map ?c [0..<length c0])[k := g k], map ?n [0..<length nm0])"
      by (simp only: prod.case if_False)
    then show ?thesis
      by (simp only: step c [OF False] n' [OF False])
  qed
qed

lemma nullable_rows_nth:
  "length c = length nm \<Longrightarrow> i < length c \<Longrightarrow>
   nullable_rows (c, nm) ! i = (if nm ! i then None else Some (c ! i))"
  by (simp add: nullable_rows_def)

lemma nullable_rows_length:
  "length c = length nm \<Longrightarrow> length (nullable_rows (c, nm)) = length c"
  by (simp add: nullable_rows_def)

subsection \<open>The whole-column logarithm against the per-row form\<close>

lemma LogImpl_apply_step_eq:
  "LogImpl_apply_step a b =
     (\<lambda>i (c, nm). if a ! i \<le> 0 \<or> \<bar>a ! i - 1\<bar> < EPSILON then (c, nm[i := True])
                   else (c[i := ln b / ln (a ! i)], nm))"
  by (intro ext) (simp add: LogImpl_apply_step_def split: prod.splits)

lemma LogImpl_apply_vector_closed:
  assumes "length a = length c" "length null_map = length c"
  shows "LogImpl_apply_vector a b c null_map =
     Some (map (\<lambda>i. if \<not> snd (LogImpl_apply (a ! i) b) then fst (LogImpl_apply (a ! i) b) else c ! i)
             [0..<length c],
           map (\<lambda>i. snd (LogImpl_apply (a ! i) b)) [0..<length c])"
proof (cases "b \<le> 0")
  case True
  have "replicate (length c) True = map (\<lambda>i. True) [0..<length c]"
    by (simp add: map_replicate_const)
  then show ?thesis using True assms
    by (simp add: LogImpl_apply_vector_def LogImpl_apply_def map_nth)
next
  case False
  have len: "length (replicate (length c) False @ drop (length c) null_map) = length c"
    using assms by simp
  have "fold (LogImpl_apply_step a b) [0..<length c]
          (c, replicate (length c) False @ drop (length c) null_map) =
        (map (\<lambda>i. if \<not> snd (LogImpl_apply (a ! i) b) then fst (LogImpl_apply (a ! i) b) else c ! i)
             [0..<length c],
         map (\<lambda>i. snd (LogImpl_apply (a ! i) b)) [0..<length c])"
    unfolding LogImpl_apply_step_eq fold_rows len
    using False assms by (auto simp: LogImpl_apply_def nth_append)
  then show ?thesis using False assms
    by (simp add: LogImpl_apply_vector_def Let_def)
qed

lemma nullable_rows_maps:
  "nullable_rows (map f [0..<n], map p [0..<n]) =
     map (\<lambda>i. if p i then None else Some (f i)) [0..<n]"
  by (rule nth_equalityI) (simp_all add: nullable_rows_def)

lemma LogImpl_apply_vector_rows:
  assumes "length a = length c" "length null_map = length c"
  shows "\<exists>c' null_map'. LogImpl_apply_vector a b c null_map = Some (c', null_map')
           \<and> length c' = length c \<and> length null_map' = length c
           \<and> nullable_rows (c', null_map') =
               map (\<lambda>x. if snd (LogImpl_apply x b) then None else Some (fst (LogImpl_apply x b))) a"
proof -
  let ?c = "map (\<lambda>i. if \<not> snd (LogImpl_apply (a ! i) b) then fst (LogImpl_apply (a ! i) b) else c ! i)
             [0..<length c]"
  let ?n = "map (\<lambda>i. snd (LogImpl_apply (a ! i) b)) [0..<length c]"
  have "nullable_rows (?c, ?n) =
      map (\<lambda>i. if snd (LogImpl_apply (a ! i) b) then None
                else Some (if \<not> snd (LogImpl_apply (a ! i) b) then fst (LogImpl_apply (a ! i) b) else c ! i))
        [0..<length c]"
    by (rule nullable_rows_maps)
  also have "\<dots> = map (\<lambda>x. if snd (LogImpl_apply x b) then None else Some (fst (LogImpl_apply x b))) a"
    using assms by (intro nth_equalityI) simp_all
  finally show ?thesis
    using LogImpl_apply_vector_closed [OF assms, of b] by simp
qed

text \<open>
  C2. The whole-column form of the two-argument logarithm (a vector of bases, one
  constant argument) and the per-row form give the same logical rows: on containers of
  the row count, the whole-column form returns, touches no cell outside them, and row
  \<open>i\<close> of its result is null exactly when the per-row form reports null for
  \<open>(a ! i, b)\<close>, and otherwise holds the value the per-row form returns.
\<close>

theorem LogImpl_apply_vector_agrees:
  "length a = length c \<and> length null_map = length c \<longrightarrow>
   (\<exists>c' null_map'. LogImpl_apply_vector a b c null_map = Some (c', null_map')
       \<and> length c' = length c \<and> length null_map' = length c
       \<and> nullable_rows (c', null_map') =
           map (\<lambda>x. if snd (LogImpl_apply x b) then None else Some (fst (LogImpl_apply x b))) a)"
  using LogImpl_apply_vector_rows by blast

theorem LogImpl_apply_vector_agrees_witness:
  "length [2, 1, - 2 :: real] = length [0, 0, 0 :: real]
   \<and> length [False, False, False] = length [0, 0, 0 :: real]
   \<and> (\<exists>c' null_map'.
         LogImpl_apply_vector [2, 1, - 2] 8 [0, 0, 0] [False, False, False] = Some (c', null_map')
         \<and> nullable_rows (c', null_map') = [Some 3, None, None])"
proof -
  have rows: "map (\<lambda>x. if snd (LogImpl_apply x 8) then None else Some (fst (LogImpl_apply x 8)))
      [2, 1, - 2] = [Some 3, None, None]"
    using log_2_8 log_base_one [of 8] log_null_iff [of "- 2" 8] by simp
  show ?thesis
    using LogImpl_apply_vector_agrees [of "[2, 1, - 2]" "[0, 0, 0]" "[False, False, False]" 8]
    unfolding rows by simp blast
qed

subsection \<open>Conditionally-nullable unary functions\<close>

lemma execute_alway_nullable_closed:
  "execute_alway_nullable is_invalid_input Function garbage src =
     (map (\<lambda>i. if \<not> is_invalid_input (src ! i) then Function (src ! i) else garbage i)
        [0..<length src],
      map (\<lambda>i. is_invalid_input (src ! i)) [0..<length src])"
  unfolding execute_alway_nullable_def fold_rows create_uninitialized_def
  by (auto intro!: nth_equalityI)

lemma execute_alway_nullable_rows:
  "nullable_rows (execute_alway_nullable is_invalid_input Function garbage src) =
     map (\<lambda>x. if is_invalid_input x then None else Some (Function x)) src"
proof -
  have "nullable_rows (execute_alway_nullable is_invalid_input Function garbage src) =
      map (\<lambda>i. if is_invalid_input (src ! i) then None
                else Some (if \<not> is_invalid_input (src ! i) then Function (src ! i) else garbage i))
        [0..<length src]"
    unfolding execute_alway_nullable_closed by (rule nullable_rows_maps)
  also have "\<dots> = map (\<lambda>x. if is_invalid_input x then None else Some (Function x)) src"
    by (intro nth_equalityI) simp_all
  finally show ?thesis .
qed

lemma invalid_predicates:
  "AcosName_is_invalid_input x = (x \<notin> {- 1..1})"
  "AsinName_is_invalid_input x = (x \<notin> {- 1..1})"
  "AcoshName_is_invalid_input x = (x < 1)"
  "AtanhName_is_invalid_input x = (x \<notin> {- 1<..<1})"
  "SqrtName_is_invalid_input x = (x < 0)"
  by (auto simp: AcosName_is_invalid_input_def AsinName_is_invalid_input_def
      AcoshName_is_invalid_input_def AtanhName_is_invalid_input_def
      SqrtName_is_invalid_input_def)

text \<open>
  C3. The validity predicates are: \<open>acos\<close> and \<open>asin\<close> invalid outside \<open>[-1, 1]\<close>,
  \<open>acosh\<close> invalid below 1, \<open>atanh\<close> invalid outside the open interval \<open>(-1, 1)\<close>,
  \<open>sqrt\<close> invalid below 0, so \<open>sqrt(-1)\<close> is invalid. For every such function the
  dispatcher yields one output row per input row; a row whose input fails the predicate
  is null, and any other row holds the transform of its input.
\<close>

theorem execute_alway_nullable_spec:
  "AcosName_is_invalid_input x = (x \<notin> {- 1..1})
   \<and> AsinName_is_invalid_input x = (x \<notin> {- 1..1})
   \<and> AcoshName_is_invalid_input x = (x < 1)
   \<and> AtanhName_is_invalid_input x = (x \<notin> {- 1<..<1})
   \<and> SqrtName_is_invalid_input x = (x < 0)
   \<and> SqrtName_is_invalid_input (- 1)
   \<and> length (nullable_rows (execute_alway_nullable is_invalid_input Function garbage src))
       = length src
   \<and> (\<forall>i < length src. is_invalid_input (src ! i) \<longrightarrow>
         nullable_rows (execute_alway_nullable is_invalid_input Function garbage src) ! i = None)
   \<and> (\<forall>i < length src. \<not> is_invalid_input (src ! i) \<longrightarrow>
         nullable_rows (execute_alway_nullable is_invalid_input Function garbage src) ! i
           = Some (Function (src ! i)))
   \<and> FunctionAcos = execute_alway_nullable AcosName_is_invalid_input arccos
   \<and> FunctionAsin = execute_alway_nullable AsinName_is_invalid_input arcsin
   \<and> FunctionAcosh = execute_alway_nullable AcoshName_is_invalid_input arcosh
   \<and> FunctionAtanh = execute_alway_nullable AtanhName_is_invalid_input artanh
   \<and> FunctionSqrt = execute_alway_nullable SqrtName_is_invalid_input sqrt"
proof -
  have "SqrtName_is_invalid_input (- 1)"
    by (simp add: SqrtName_is_invalid_input_def)
  then show ?thesis
    unfolding execute_alway_nullable_rows
    by (simp add: invalid_predicates FunctionAcos_def FunctionAsin_def FunctionAcosh_def
        FunctionAtanh_def FunctionSqrt_def)
qed

theorem execute_alway_nullable_spec_witness:
  "nullable_rows (FunctionSqrt (\<lambda>i. 0) [4, - 1]) = [Some 2, None]
   \<and> nullable_rows (FunctionAsin (\<lambda>i. 0) [2, 0]) = [None, Some 0]
   \<and> nullable_rows (FunctionAcos (\<lambda>i. 0) [- 2, 1]) = [None, Some 0]
   \<and> nullable_rows (FunctionAcosh (\<lambda>i. 0) [0]) = [None]
   \<and> nullable_rows (FunctionAtanh (\<lambda>i. 0) [1, - 1]) = [None, None]"
proof -
  have len: "\<And>xs :: real option list. length xs = 2 \<Longrightarrow> xs = [xs ! 0, xs ! 1]"
    by (rule nth_equalityI) (auto simp: less_Suc_eq numeral_2_eq_2)
  have len1: "\<And>xs :: real option list. length xs = 1 \<Longrightarrow> xs = [xs ! 0]"
    by (rule nth_equalityI) auto
  have sq: "sqrt 4 = 2"
    using real_sqrt_abs [of 2] by simp
  note spec = execute_alway_nullable_spec
  have a: "nullable_rows (FunctionSqrt (\<lambda>i. 0) [4, - 1]) = [Some 2, None]"
    using spec [of 0 SqrtName_is_invalid_input sqrt "\<lambda>i. 0" "[4, - 1]"] sq
    by (subst len) (auto simp: SqrtName_is_invalid_input_def)
  have b: "nullable_rows (FunctionAsin (\<lambda>i. 0) [2, 0]) = [None, Some 0]"
    using spec [of 0 AsinName_is_invalid_input arcsin "\<lambda>i. 0" "[2, 0]"]
    by (subst len) (auto simp: AsinName_is_invalid_input_def)
  have c: "nullable_rows (FunctionAcos (\<lambda>i. 0) [- 2, 1]) = [None, Some 0]"
    using spec [of 0 AcosName_is_invalid_input arccos "\<lambda>i. 0" "[- 2, 1]"]
    by (subst len) (auto simp: AcosName_is_invalid_input_def)
  have d: "nullable_rows (FunctionAcosh (\<lambda>i. 0) [0]) = [None]"
    using spec [of 0 AcoshName_is_invalid_input arcosh "\<lambda>i. 0" "[0]"]
    by (subst len1) (auto simp: AcoshName_is_invalid_input_def)
  have e: "nullable_rows (FunctionAtanh (\<lambda>i. 0) [1, - 1]) = [None, None]"
    using spec [of 0 AtanhName_is_invalid_input artanh "\<lambda>i. 0" "[1, - 1]"]
    by (subst len) (auto simp: AtanhName_is_invalid_input_def)
  from a b c d e show ?thesis by simp
qed

subsection \<open>Gaussian cumulative distribution\<close>

lemma erf_0: "erf 0 = 0"
  by (simp add: erf_def)

lemma calculate_cell_example: "calculate_cell 0 1 0 = 1 / 2"
  by (simp add: calculate_cell_def erf_0)

lemma row_value_Some:
  "column_rows col n \<Longrightarrow> i < n \<Longrightarrow> row_value col i = Some (convert_to_full_column col ! i)"
  by (cases col)
     (simp_all add: column_rows_def row_value_def get_element_def get_data_column_def
        index_check_const_def is_column_const_def convert_to_full_column_def)

lemma fold_option_steps:
  assumes "\<And>i st. i < k \<Longrightarrow> step i (Some st) = Some (F i st)"
  shows "fold step [0..<k] (Some st0) = Some (fold F [0..<k] st0)"
  using assms
proof (induction k)
  case 0
  show ?case by simp
next
  case (Suc k)
  have "fold step [0..<k] (Some st0) = Some (fold F [0..<k] st0)"
    using Suc.prems by (intro Suc.IH) simp
  then show ?case using Suc.prems [of k] by simp
qed

lemma execute_impl_closed:
  assumes "column_rows mean_col n" "column_rows sd_col n" "column_rows value_col n"
  shows "execute_impl garbage mean_col sd_col value_col n =
     Some (map (\<lambda>i. if \<not> \<not> check_argument (convert_to_full_column sd_col ! i)
                     then calculate_cell (convert_to_full_column mean_col ! i)
                            (convert_to_full_column sd_col ! i)
                            (convert_to_full_column value_col ! i)
                     else garbage i) [0..<n],
           map (\<lambda>i. \<not> check_argument (convert_to_full_column sd_col ! i)) [0..<n])"
proof -
  let ?m = "\<lambda>i. convert_to_full_column mean_col ! i"
  let ?s = "\<lambda>i. convert_to_full_column sd_col ! i"
  let ?v = "\<lambda>i. convert_to_full_column value_col ! i"
  let ?F = "\<lambda>i (c, nm). if \<not> check_argument (?s i) then (c, nm[i := True])
                          else (c[i := calculate_cell (?m i) (?s i) (?v i)], nm)"
  have step: "execute_impl_step mean_col sd_col value_col i (Some st) = Some (?F i st)"
    if "i < n" for i st
    using that assms by (cases st) (simp add: execute_impl_step_def row_value_Some)
  have "execute_impl garbage mean_col sd_col value_col n =
      Some (fold ?F [0..<n] (create_uninitialized garbage n, replicate n False))"
    unfolding execute_impl_def using step by (rule fold_option_steps)
  also have "fold ?F [0..<n] (create_uninitialized garbage n, replicate n False) =
      (map (\<lambda>i. if \<not> \<not> check_argument (?s i) then calculate_cell (?m i) (?s i) (?v i) else garbage i)
         [0..<n],
       map (\<lambda>i. \<not> check_argument (?s i)) [0..<n])"
    unfolding fold_rows create_uninitialized_def
    by (auto intro!: nth_equalityI)
  finally show ?thesis .
qed

lemma execute_impl_rows:
  assumes "column_rows mean_col n" "column_rows sd_col n" "column_rows value_col n"
  shows "\<exists>d nm. execute_impl garbage mean_col sd_col value_col n = Some (d, nm)
           \<and> length d = n \<and> length nm = n
           \<and> nullable_rows (d, nm) =
               map (\<lambda>i. normal_cdf_row (convert_to_full_column mean_col ! i)
                           (convert_to_full_column sd_col ! i)
                           (convert_to_full_column value_col ! i)) [0..<n]"
proof -
  have "nullable_rows
      (map (\<lambda>i. if \<not> \<not> check_argument (convert_to_full_column sd_col ! i)
                     then calculate_cell (convert_to_full_column mean_col ! i)
                            (convert_to_full_column sd_col ! i)
                            (convert_to_full_column value_col ! i)
                     else garbage i) [0..<n],
       map (\<lambda>i. \<not> check_argument (convert_to_full_column sd_col ! i)) [0..<n]) =
     map (\<lambda>i. normal_cdf_row (convert_to_full_column mean_col ! i)
                           (convert_to_full_column sd_col ! i)
                           (convert_to_full_column value_col ! i)) [0..<n]"
    unfolding nullable_rows_maps
    by (auto simp: normal_cdf_row_def check_argument_def calculate_cell_def sqrt2_def)
  then show ?thesis
    unfolding execute_impl_closed [OF assms] by simp
qed

lemma return_type_nullable: "is_nullable (get_return_type_impl arguments)"
  by (simp add: get_return_type_impl_def make_nullable_def is_nullable_def)

lemma upt_2: "[0..<2] = [0, Suc 0]"
  by (simp add: numeral_2_eq_2)

text \<open>
  C4. On argument columns of the row count (each full or constant), \<^verbatim>\<open>execute_impl\<close>
  returns without reading outside a column, and every row of \<open>normal_cdf(mean, sd, v)\<close>
  is null if \<open>sd \<le> 0\<close> (for every mean and \<open>v\<close>) and is
  \<open>0.5 * (erf ((v - mean) / (sd * sqrt 2)) + 1)\<close> otherwise, so
  \<open>normal_cdf(0, 1, 0) = 0.5\<close>. The return type is nullable whatever the argument
  types are.
\<close>

theorem execute_impl_spec:
  "(column_rows mean_col n \<and> column_rows sd_col n \<and> column_rows value_col n \<longrightarrow>
      (\<exists>d nm. execute_impl garbage mean_col sd_col value_col n = Some (d, nm)
          \<and> length d = n \<and> length nm = n
          \<and> nullable_rows (d, nm) =
              map (\<lambda>i. normal_cdf_row (convert_to_full_column mean_col ! i)
                          (convert_to_full_column sd_col ! i)
                          (convert_to_full_column value_col ! i)) [0..<n]))
   \<and> normal_cdf_row mean sd v =
       (if sd \<le> 0 then None else Some (0.5 * (erf ((v - mean) / (sd * sqrt 2)) + 1)))
   \<and> normal_cdf_row 0 1 0 = Some 0.5
   \<and> calculate_cell 0 1 0 = 0.5
   \<and> is_nullable (get_return_type_impl arguments)"
proof (intro conjI impI)
  assume "column_rows mean_col n \<and> column_rows sd_col n \<and> column_rows value_col n"
  then show "\<exists>d nm. execute_impl garbage mean_col sd_col value_col n = Some (d, nm)
          \<and> length d = n \<and> length nm = n
          \<and> nullable_rows (d, nm) =
              map (\<lambda>i. normal_cdf_row (convert_to_full_column mean_col ! i)
                          (convert_to_full_column sd_col ! i)
                          (convert_to_full_column value_col ! i)) [0..<n]"
    using execute_impl_rows by blast
next
  show "normal_cdf_row mean sd v =
       (if sd \<le> 0 then None else Some (0.5 * (erf ((v - mean) / (sd * sqrt 2)) + 1)))"
    by (simp add: normal_cdf_row_def)
  show "normal_cdf_row 0 1 0 = Some 0.5"
    by (simp add: normal_cdf_row_def erf_0)
  show "calculate_cell 0 1 0 = 0.5"
    by (simp add: calculate_cell_def erf_0)
  show "is_nullable (get_return_type_impl arguments)"
    by (rule return_type_nullable)
qed

theorem execute_impl_spec_witness:
  "column_rows (ColumnConst [0] 2) 2 \<and> column_rows (ColumnFloat64 [1, 0]) 2
   \<and> (\<exists>d nm. execute_impl (\<lambda>i. 0) (ColumnConst [0] 2) (ColumnFloat64 [1, 0]) (ColumnConst [0] 2) 2
          = Some (d, nm)
        \<and> nullable_rows (d, nm) = [Some 0.5, None])"
proof -
  have wf: "column_rows (ColumnConst [0] 2) 2" "column_rows (ColumnFloat64 [1, 0]) 2"
    by (simp_all add: column_rows_def)
  have rows: "map (\<lambda>i. normal_cdf_row (convert_to_full_column (ColumnConst [0] 2) ! i)
                          (convert_to_full_column (ColumnFloat64 [1, 0]) ! i)
                          (convert_to_full_column (ColumnConst [0] 2) ! i)) [0..<2]
      = [Some 0.5, None]"
    by (simp add: upt_2 convert_to_full_column_def normal_cdf_row_def erf_0)
  show ?thesis
    using wf execute_impl_spec [of "ColumnConst [0] 2" 2 "ColumnFloat64 [1, 0]" "ColumnConst [0] 2"
            "\<lambda>i. 0" 0 1 0 "[]"]
    unfolding rows by simp blast
qed

subsection \<open>Constant columns\<close>

lemma map_const_upt: "map (\<lambda>i. r) [0..<n] = replicate n r"
  by (rule nth_equalityI) simp_all

lemma column_rows_full:
  "column_rows col n \<Longrightarrow> column_rows (ColumnFloat64 (convert_to_full_column col)) n"
  by (cases col) (simp_all add: column_rows_def convert_to_full_column_def)

lemma convert_to_full_column_full:
  "convert_to_full_column (ColumnFloat64 d) = d"
  by (simp add: convert_to_full_column_def)

lemma execute_impl_all_const:
  "\<exists>d nm. execute_impl garbage (ColumnConst [mean] n) (ColumnConst [sd] n) (ColumnConst [v] n) n
             = Some (d, nm)
          \<and> nullable_rows (d, nm) = replicate n (normal_cdf_row mean sd v)"
proof -
  have wf: "column_rows (ColumnConst [mean] n) n" "column_rows (ColumnConst [sd] n) n"
      "column_rows (ColumnConst [v] n) n"
    by (simp_all add: column_rows_def)
  have "map (\<lambda>i. normal_cdf_row (convert_to_full_column (ColumnConst [mean] n) ! i)
                  (convert_to_full_column (ColumnConst [sd] n) ! i)
                  (convert_to_full_column (ColumnConst [v] n) ! i)) [0..<n]
      = replicate n (normal_cdf_row mean sd v)"
    by (rule nth_equalityI) (simp_all add: convert_to_full_column_def)
  then show ?thesis
    using execute_impl_rows [OF wf, of garbage] by auto
qed

lemma execute_impl_one_row:
  "\<exists>d nm. execute_impl garbage (ColumnFloat64 [mean]) (ColumnFloat64 [sd]) (ColumnFloat64 [v]) 1
             = Some (d, nm)
          \<and> nullable_rows (d, nm) = [normal_cdf_row mean sd v]"
proof -
  have wf: "column_rows (ColumnFloat64 [mean]) 1" "column_rows (ColumnFloat64 [sd]) 1"
      "column_rows (ColumnFloat64 [v]) 1"
    by (simp_all add: column_rows_def)
  show ?thesis
    using execute_impl_rows [OF wf, of garbage] by (auto simp: convert_to_full_column_def)
qed

lemma execute_impl_full:
  assumes "column_rows c0 n" "column_rows c1 n" "column_rows c2 n"
  shows "\<exists>d nm d' nm'. execute_impl garbage c0 c1 c2 n = Some (d, nm)
          \<and> execute_impl garbage1 (ColumnFloat64 (convert_to_full_column c0))
                (ColumnFloat64 (convert_to_full_column c1))
                (ColumnFloat64 (convert_to_full_column c2)) n = Some (d', nm')
          \<and> nullable_rows (d, nm) = nullable_rows (d', nm')"
  using execute_impl_rows [OF assms, of garbage]
    execute_impl_rows [OF assms [THEN column_rows_full], of garbage1]
  by (auto simp: convert_to_full_column_full)

lemma LogImpl_apply_vector_const:
  assumes "length a = length c" "length null_map = length c"
  shows "\<exists>c' nm'. LogImpl_apply_vector a b c null_map = Some (c', nm')
          \<and> nullable_rows (c', nm') =
              map (\<lambda>(x, y). if snd (LogImpl_apply x y) then None else Some (fst (LogImpl_apply x y)))
                (zip a (convert_to_full_column (ColumnConst [b] (length a))))"
proof -
  have "map (\<lambda>(x, y). if snd (LogImpl_apply x y) then None else Some (fst (LogImpl_apply x y)))
          (zip a (convert_to_full_column (ColumnConst [b] (length a))))
      = map (\<lambda>x. if snd (LogImpl_apply x b) then None else Some (fst (LogImpl_apply x b))) a"
    by (rule nth_equalityI) (simp_all add: convert_to_full_column_def)
  then show ?thesis
    using LogImpl_apply_vector_rows [OF assms, of b] by auto
qed

lemma concat_replicate_single: "concat (replicate n [r]) = replicate n r"
  by (induction n) simp_all

lemma execute_alway_nullable_column_const:
  "execute_alway_nullable_column is_invalid_input Function garbage (ColumnConst [x] n) =
     replicate n (if is_invalid_input x then None else Some (Function x))"
  by (simp add: execute_alway_nullable_column_def execute_alway_nullable_rows
      concat_replicate_single)

lemma execute_alway_nullable_column_full:
  "execute_alway_nullable_column is_invalid_input Function garbage
      (ColumnFloat64 (convert_to_full_column (ColumnConst [x] n))) =
     replicate n (if is_invalid_input x then None else Some (Function x))"
  by (simp add: execute_alway_nullable_column_def execute_alway_nullable_rows
      convert_to_full_column_def)

text \<open>
  C8. Evaluating a function over constant columns of \<open>n\<close> rows gives the result of
  evaluating it once on the stored values, broadcast to \<open>n\<close> rows with its null status.
  For \<open>normal_cdf\<close>: three constant columns give \<open>n\<close> copies of the one row
  computed from the three stored values, and any mix of constant and full columns gives
  the rows computed from the full columns they stand for. For the two-argument
  logarithm: the whole-column form with a constant argument gives the rows of the
  per-row form against the broadcast argument. For a conditionally-nullable unary
  function (dispatcher modelled from the specification): a constant column gives \<open>n\<close>
  copies of the row of its stored value, the same rows as the full column it stands for.
\<close>

theorem constant_column_broadcast:
  "(\<exists>d nm d1 nm1 r.
       execute_impl garbage (ColumnConst [mean] n) (ColumnConst [sd] n) (ColumnConst [v] n) n
         = Some (d, nm)
       \<and> execute_impl garbage1 (ColumnFloat64 [mean]) (ColumnFloat64 [sd]) (ColumnFloat64 [v]) 1
         = Some (d1, nm1)
       \<and> nullable_rows (d1, nm1) = [r]
       \<and> nullable_rows (d, nm) = replicate n r)
   \<and> (column_rows c0 n \<and> column_rows c1 n \<and> column_rows c2 n \<longrightarrow>
        (\<exists>d nm d' nm'. execute_impl garbage c0 c1 c2 n = Some (d, nm)
           \<and> execute_impl garbage1 (ColumnFloat64 (convert_to_full_column c0))
                (ColumnFloat64 (convert_to_full_column c1))
                (ColumnFloat64 (convert_to_full_column c2)) n = Some (d', nm')
           \<and> nullable_rows (d, nm) = nullable_rows (d', nm')))
   \<and> (length a = length c \<and> length null_map = length c \<longrightarrow>
        (\<exists>c' nm'. LogImpl_apply_vector a b c null_map = Some (c', nm')
           \<and> nullable_rows (c', nm') =
               map (\<lambda>(x, y). if snd (LogImpl_apply x y) then None
                              else Some (fst (LogImpl_apply x y)))
                 (zip a (convert_to_full_column (ColumnConst [b] (length a))))))
   \<and> execute_alway_nullable_column is_invalid_input Function garbage (ColumnConst [x] n) =
       replicate n (if is_invalid_input x then None else Some (Function x))
   \<and> execute_alway_nullable_column is_invalid_input Function garbage (ColumnConst [x] n) =
       execute_alway_nullable_column is_invalid_input Function garbage1
         (ColumnFloat64 (convert_to_full_column (ColumnConst [x] n)))"
proof (intro conjI impI)
  show "\<exists>d nm d1 nm1 r.
       execute_impl garbage (ColumnConst [mean] n) (ColumnConst [sd] n) (ColumnConst [v] n) n
         = Some (d, nm)
       \<and> execute_impl garbage1 (ColumnFloat64 [mean]) (ColumnFloat64 [sd]) (ColumnFloat64 [v]) 1
         = Some (d1, nm1)
       \<and> nullable_rows (d1, nm1) = [r]
       \<and> nullable_rows (d, nm) = replicate n r"
    using execute_impl_all_const [of garbage mean n sd v]
      execute_impl_one_row [of garbage1 mean sd v]
    by blast
next
  assume "column_rows c0 n \<and> column_rows c1 n \<and> column_rows c2 n"
  then show "\<exists>d nm d' nm'. execute_impl garbage c0 c1 c2 n = Some (d, nm)
           \<and> execute_impl garbage1 (ColumnFloat64 (convert_to_full_column c0))
                (ColumnFloat64 (convert_to_full_column c1))
                (ColumnFloat64 (convert_to_full_column c2)) n = Some (d', nm')
           \<and> nullable_rows (d, nm) = nullable_rows (d', nm')"
    using execute_impl_full by blast
next
  assume "length a = length c \<and> length null_map = length c"
  then show "\<exists>c' nm'. LogImpl_apply_vector a b c null_map = Some (c', nm')
           \<and> nullable_rows (c', nm') =
               map (\<lambda>(x, y). if snd (LogImpl_apply x y) then None
                              else Some (fst (LogImpl_apply x y)))
                 (zip a (convert_to_full_column (ColumnConst [b] (length a))))"
    using LogImpl_apply_vector_const by blast
next
  show "execute_alway_nullable_column is_invalid_input Function garbage (ColumnConst [x] n) =
       replicate n (if is_invalid_input x then None else Some (Function x))"
    by (rule execute_alway_nullable_column_const)
  show "execute_alway_nullable_column is_invalid_input Function garbage (ColumnConst [x] n) =
       execute_alway_nullable_column is_invalid_input Function garbage1
         (ColumnFloat64 (convert_to_full_column (ColumnConst [x] n)))"
    by (simp only: execute_alway_nullable_column_const execute_alway_nullable_column_full)
qed

theorem constant_column_broadcast_witness:
  "column_rows (ColumnConst [0] 2) 2 \<and> column_rows (ColumnConst [1] 2) 2
   \<and> (\<exists>d nm d' nm'.
        execute_impl (\<lambda>i. 0) (ColumnConst [0] 2) (ColumnConst [1] 2) (ColumnConst [0] 2) 2
          = Some (d, nm)
        \<and> execute_impl (\<lambda>i. 7) (ColumnFloat64 [0, 0]) (ColumnFloat64 [1, 1]) (ColumnFloat64 [0, 0]) 2
          = Some (d', nm')
        \<and> nullable_rows (d, nm) = nullable_rows (d', nm'))
   \<and> length [2, 2 :: real] = length [0, 0 :: real]
   \<and> length [False, False] = length [0, 0 :: real]
   \<and> (\<exists>c' nm'. LogImpl_apply_vector [2, 2] 8 [0, 0] [False, False] = Some (c', nm')
        \<and> nullable_rows (c', nm') = [Some 3, Some 3])
   \<and> execute_alway_nullable_column SqrtName_is_invalid_input sqrt (\<lambda>i. 0) (ColumnConst [- 1] 3)
       = [None, None, None]"
proof -
  have wf: "column_rows (ColumnConst [0] 2) 2" "column_rows (ColumnConst [1] 2) 2"
    by (simp_all add: column_rows_def)
  have full: "convert_to_full_column (ColumnConst [0] 2) = [0, 0]"
      "convert_to_full_column (ColumnConst [1] 2) = [1, 1]"
      "convert_to_full_column (ColumnConst [8] (length [2, 2 :: real])) = [8, 8]"
    by (simp_all add: convert_to_full_column_def numeral_2_eq_2)
  have rows: "map (\<lambda>(x, y). if snd (LogImpl_apply x y) then None else Some (fst (LogImpl_apply x y)))
      (zip [2, 2] [8, 8]) = [Some 3, Some 3]"
    using log_2_8 by simp
  have three: "replicate 3 (None :: real option) = [None, None, None]"
    by (simp add: numeral_3_eq_3)
  note spec = constant_column_broadcast [of "\<lambda>i. 0" 0 2 1 0 "\<lambda>i. 7"
      "ColumnConst [0] 2" "ColumnConst [1] 2" "ColumnConst [0] 2"
      "[2, 2]" "[0, 0]" "[False, False]" 8]
  have a: "\<exists>d nm d' nm'.
        execute_impl (\<lambda>i. 0) (ColumnConst [0] 2) (ColumnConst [1] 2) (ColumnConst [0] 2) 2
          = Some (d, nm)
        \<and> execute_impl (\<lambda>i. 7) (ColumnFloat64 [0, 0]) (ColumnFloat64 [1, 1]) (ColumnFloat64 [0, 0]) 2
          = Some (d', nm')
        \<and> nullable_rows (d, nm) = nullable_rows (d', nm')"
    using spec wf unfolding full by blast
  have b: "\<exists>c' nm'. LogImpl_apply_vector [2, 2] 8 [0, 0] [False, False] = Some (c', nm')
        \<and> nullable_rows (c', nm') = [Some 3, Some 3]"
    using spec unfolding full rows by simp
  have c: "execute_alway_nullable_column SqrtName_is_invalid_input sqrt (\<lambda>i. 0) (ColumnConst [- 1] 3)
       = [None, None, None]"
    using constant_column_broadcast [of "\<lambda>i. 0" 0 3 1 0 "\<lambda>i. 7"
      "ColumnConst [0] 3" "ColumnConst [1] 3" "ColumnConst [0] 3"
      "[2, 2]" "[0, 0]" "[False, False]" 8 SqrtName_is_invalid_input sqrt "- 1"]
    by (simp add: SqrtName_is_invalid_input_def three)
  from wf a b c show ?thesis by simp
qed

subsection \<open>Sine kernel\<close>

text \<open>
  What the source fixes about the sine kernel: the function it calls is \<^verbatim>\<open>std::sin\<close>
  whenever the build defines \<^verbatim>\<open>BE_TEST\<close> or the lookup fails, and the \<^verbatim>\<open>sin\<close> symbol of
  \<^verbatim>\<open>libm.so.6\<close> otherwise; the function chosen by the first call serves every later
  call.
\<close>

lemma get_sin_func_fallback:
  "BE_TEST env \<or> dlopen_libm env = None
     \<or> (\<exists>h. dlopen_libm env = Some h \<and> dlsym_sin env h = None)
   \<Longrightarrow> get_sin_func env = std_sin"
  by (auto simp: get_sin_func_def)

lemma get_sin_func_resolved:
  "\<not> BE_TEST env \<Longrightarrow> dlopen_libm env = Some h \<Longrightarrow> dlsym_sin env h = Some f
   \<Longrightarrow> get_sin_func env = f"
  by (simp add: get_sin_func_def)

lemma execute_all_cached:
  "execute_all env (Some f) xs = map f xs"
  by (induction xs) (simp_all add: UnaryFunctionPlainSin_execute_def Let_def)

lemma execute_all_first_call:
  "execute_all env None xs = map (get_sin_func env) xs"
  by (cases xs) (simp_all add: UnaryFunctionPlainSin_execute_def Let_def execute_all_cached)

end
